theory Spec2Isabelle
  imports Complex_Main "HOL-Library.Word" "HOL-Library.AList"
begin

unbundle bit_operations_syntax

section \<open>Data model (rate\_limiter.hpp)\<close>

text \<open>
  A \<open>std::chrono::steady_clock::time_point\<close> is modelled as the integer count of
  nanosecond ticks since the clock's epoch; the value-initialised time point
  \<open>time_point{}\<close> is tick 0. A finite C++ \<open>double\<close> is a real number (infinities
  and NaN are left out); the functions of the first part compute with it exactly, and
  the rate limiter is given a second time with the rounding of each operation left
  open. The two \<open>unordered_map\<close> tables are association
  lists: lookup is \<open>map_of\<close>, \<open>m[key] = v\<close> is \<open>AList.update\<close>. The two statistics
  counters are \<open>uint64_t\<close> and wrap modulo \<open>2 ^ 64\<close>.
\<close>

type_synonym time_point = int

record RateLimitPolicy =
  maxMessagesPerSec :: real
  burstSize :: int
  blockDurationSec :: int

record TokenBucket =
  tokens :: real
  lastRefill :: time_point
  blockedUntil :: time_point
  isBlocked :: bool

record RateLimiter =
  defaultPolicy :: RateLimitPolicy
  clientPolicies :: "(string \<times> RateLimitPolicy) list"
  buckets :: "(string \<times> TokenBucket) list"
  allowedMessages :: "64 word"
  blockedMessages :: "64 word"

text \<open>The member initialisers of \<open>struct RateLimitPolicy\<close> and \<open>struct TokenBucket\<close>.\<close>

definition default_RateLimitPolicy :: RateLimitPolicy where
  "default_RateLimitPolicy =
     \<lparr>maxMessagesPerSec = 10, burstSize = 20, blockDurationSec = 60\<rparr>"

definition default_TokenBucket :: TokenBucket where
  "default_TokenBucket =
     \<lparr>tokens = 0, lastRefill = 0, blockedUntil = 0, isBlocked = False\<rparr>"

text \<open>The constructor \<open>RateLimiter::RateLimiter(defaultPolicy)\<close>.\<close>

definition new_RateLimiter :: "RateLimitPolicy \<Rightarrow> RateLimiter" where
  "new_RateLimiter p =
     \<lparr>defaultPolicy = p, clientPolicies = [], buckets = [],
      allowedMessages = 0, blockedMessages = 0\<rparr>"

subsection \<open>Durations\<close>

text \<open>
  \<open>duration_cast<milliseconds>\<close> of a nanosecond count divides by 1000000 and, as C++
  integer division does, drops the fraction towards zero.
\<close>

definition to_milliseconds :: "int \<Rightarrow> int" where
  "to_milliseconds ns = (if 0 \<le> ns then ns div 1000000 else - ((- ns) div 1000000))"

definition seconds :: "int \<Rightarrow> int" where
  "seconds n = n * 1000000000"

definition hours :: "int \<Rightarrow> int" where
  "hours n = n * 3600000000000"

section \<open>The rate limiter (rate\_limiter.cpp)\<close>

text \<open>
  \<open>refillBucket\<close> reads the clock itself; the reading is the first argument.
\<close>

definition refillBucket :: "time_point \<Rightarrow> TokenBucket \<Rightarrow> RateLimitPolicy \<Rightarrow> TokenBucket" where
  "refillBucket now bucket policy =
     (if lastRefill bucket = 0
      then bucket\<lparr>lastRefill := now, tokens := of_int (burstSize policy)\<rparr>
      else
        let elapsed = to_milliseconds (now - lastRefill bucket);
            secondsElapsed = of_int elapsed / 1000;
            tokensToAdd = secondsElapsed * maxMessagesPerSec policy
        in bucket\<lparr>tokens := min (of_int (burstSize policy)) (tokens bucket + tokensToAdd),
                  lastRefill := now\<rparr>)"

text \<open>\<open>buckets_[key]\<close>: the stored bucket, or a value-initialised one.\<close>

definition bucket_at :: "string \<Rightarrow> (string \<times> TokenBucket) list \<Rightarrow> TokenBucket" where
  "bucket_at key bs = (case map_of bs key of Some b \<Rightarrow> b | None \<Rightarrow> default_TokenBucket)"

text \<open>
  \<open>checkAndUpdateBucket\<close> reads the clock once (\<open>now\<close>) and then calls \<open>refillBucket\<close>,
  which reads it again (\<open>now_refill\<close>). The bucket is a reference into the table, so
  every exit writes it back.
\<close>

definition checkAndUpdateBucket ::
  "time_point \<Rightarrow> time_point \<Rightarrow> string \<Rightarrow> RateLimitPolicy \<Rightarrow> RateLimiter \<Rightarrow> bool \<times> RateLimiter" where
  "checkAndUpdateBucket now now_refill key policy s =
     (let bucket = refillBucket now_refill (bucket_at key (buckets s)) policy in
      if isBlocked bucket \<and> now < blockedUntil bucket
      then (False, s\<lparr>buckets := AList.update key bucket (buckets s)\<rparr>)
      else
        let bucket = (if isBlocked bucket \<and> blockedUntil bucket \<le> now
                      then bucket\<lparr>isBlocked := False\<rparr> else bucket) in
        if 1 \<le> tokens bucket
        then (True, s\<lparr>buckets := AList.update key (bucket\<lparr>tokens := tokens bucket - 1\<rparr>) (buckets s)\<rparr>)
        else
          let bucket = (if 0 < blockDurationSec policy
                        then bucket\<lparr>isBlocked := True,
                                    blockedUntil := now + seconds (blockDurationSec policy)\<rparr>
                        else bucket)
          in (False, s\<lparr>buckets := AList.update key bucket (buckets s)\<rparr>))"

text \<open>
  \<open>allow\<close>, lines 12 to 23: the bucket key, and the policy looked up under the client id
  as passed (also when it is empty), else the default policy.
\<close>

definition bucket_key :: "string \<Rightarrow> string \<Rightarrow> string" where
  "bucket_key ip clientId = (if clientId = [] then ip else clientId)"

definition policy_for :: "string \<Rightarrow> RateLimiter \<Rightarrow> RateLimitPolicy" where
  "policy_for clientId s =
     (case map_of (clientPolicies s) clientId of Some p \<Rightarrow> p | None \<Rightarrow> defaultPolicy s)"

definition allow ::
  "time_point \<Rightarrow> time_point \<Rightarrow> string \<Rightarrow> string \<Rightarrow> RateLimiter \<Rightarrow> bool \<times> RateLimiter" where
  "allow now now_refill ip clientId s =
     (let key = bucket_key ip clientId;
          policy = policy_for clientId s;
          (allowed, s') = checkAndUpdateBucket now now_refill key policy s
      in if allowed
         then (allowed, s'\<lparr>allowedMessages := allowedMessages s' + 1\<rparr>)
         else (allowed, s'\<lparr>blockedMessages := blockedMessages s' + 1\<rparr>))"

definition setClientPolicy :: "string \<Rightarrow> RateLimitPolicy \<Rightarrow> RateLimiter \<Rightarrow> RateLimiter" where
  "setClientPolicy clientId policy s =
     s\<lparr>clientPolicies := AList.update clientId policy (clientPolicies s)\<rparr>"

text \<open>The \<open>while (it != buckets_.end())\<close> loop of \<open>cleanupExpired\<close>, over the entries.\<close>

fun cleanup_loop :: "time_point \<Rightarrow> (string \<times> TokenBucket) list \<Rightarrow> (string \<times> TokenBucket) list" where
  "cleanup_loop now [] = []"
| "cleanup_loop now ((k, b) # rest) =
     (let timeSinceLastRefill = now - lastRefill b in
      if hours 1 < timeSinceLastRefill
      then cleanup_loop now rest
      else (k, b) # cleanup_loop now rest)"

definition cleanupExpired :: "time_point \<Rightarrow> RateLimiter \<Rightarrow> RateLimiter" where
  "cleanupExpired now s = s\<lparr>buckets := cleanup_loop now (buckets s)\<rparr>"

subsection \<open>The same code over rounding arithmetic\<close>

text \<open>
  The definitions above compute with exact reals. A finite \<open>double\<close> is a real number,
  and each machine operation returns the rounded result of the exact one; which result
  that is, is left open here: the conversion of a 64-bit count to \<open>double\<close> and the four
  operations are parameters. Comparisons of finite doubles are those of the reals, the
  literals \<open>1.0\<close> and \<open>1000.0\<close> and the conversion of the 32-bit \<open>burstSize\<close> are exact.
  \<open>exact_arith\<close> is the arithmetic without rounding.
\<close>

record arith =
  to_double :: "int \<Rightarrow> real"
  plus_d :: "real \<Rightarrow> real \<Rightarrow> real"
  minus_d :: "real \<Rightarrow> real \<Rightarrow> real"
  times_d :: "real \<Rightarrow> real \<Rightarrow> real"
  divide_d :: "real \<Rightarrow> real \<Rightarrow> real"

definition exact_arith :: arith where
  "exact_arith =
     \<lparr>to_double = of_int, plus_d = (+), minus_d = (-), times_d = (*), divide_d = (/)\<rparr>"

definition refillBucket_rounded ::
  "arith \<Rightarrow> time_point \<Rightarrow> TokenBucket \<Rightarrow> RateLimitPolicy \<Rightarrow> TokenBucket" where
  "refillBucket_rounded ar now bucket policy =
     (if lastRefill bucket = 0
      then bucket\<lparr>lastRefill := now, tokens := of_int (burstSize policy)\<rparr>
      else
        let elapsed = to_milliseconds (now - lastRefill bucket);
            secondsElapsed = divide_d ar (to_double ar elapsed) 1000;
            tokensToAdd = times_d ar secondsElapsed (maxMessagesPerSec policy)
        in bucket\<lparr>tokens := min (of_int (burstSize policy))
                               (plus_d ar (tokens bucket) tokensToAdd),
                  lastRefill := now\<rparr>)"

definition checkAndUpdateBucket_rounded ::
  "arith \<Rightarrow> time_point \<Rightarrow> time_point \<Rightarrow> string \<Rightarrow> RateLimitPolicy \<Rightarrow> RateLimiter
   \<Rightarrow> bool \<times> RateLimiter" where
  "checkAndUpdateBucket_rounded ar now now_refill key policy s =
     (let bucket = refillBucket_rounded ar now_refill (bucket_at key (buckets s)) policy in
      if isBlocked bucket \<and> now < blockedUntil bucket
      then (False, s\<lparr>buckets := AList.update key bucket (buckets s)\<rparr>)
      else
        let bucket = (if isBlocked bucket \<and> blockedUntil bucket \<le> now
                      then bucket\<lparr>isBlocked := False\<rparr> else bucket) in
        if 1 \<le> tokens bucket
        then (True, s\<lparr>buckets :=
                AList.update key (bucket\<lparr>tokens := minus_d ar (tokens bucket) 1\<rparr>) (buckets s)\<rparr>)
        else
          let bucket = (if 0 < blockDurationSec policy
                        then bucket\<lparr>isBlocked := True,
                                    blockedUntil := now + seconds (blockDurationSec policy)\<rparr>
                        else bucket)
          in (False, s\<lparr>buckets := AList.update key bucket (buckets s)\<rparr>))"

definition allow_rounded ::
  "arith \<Rightarrow> time_point \<Rightarrow> time_point \<Rightarrow> string \<Rightarrow> string \<Rightarrow> RateLimiter
   \<Rightarrow> bool \<times> RateLimiter" where
  "allow_rounded ar now now_refill ip clientId s =
     (let key = bucket_key ip clientId;
          policy = policy_for clientId s;
          (allowed, s') = checkAndUpdateBucket_rounded ar now now_refill key policy s
      in if allowed
         then (allowed, s'\<lparr>allowedMessages := allowedMessages s' + 1\<rparr>)
         else (allowed, s'\<lparr>blockedMessages := blockedMessages s' + 1\<rparr>))"

section \<open>The metrics sink (metrics.cpp)\<close>

text \<open>
  The counter table of \<open>Metrics\<close>: \<open>incrementCounter\<close> creates a missing counter at 0
  and then increments it.
\<close>

type_synonym Metrics = "(string \<times> 64 word) list"

definition new_Metrics :: Metrics where
  "new_Metrics =
     [(''total_connections'', 0), (''allowed_messages'', 0),
      (''blocked_messages'', 0), (''client_disconnects'', 0)]"

definition counter_value :: "string \<Rightarrow> Metrics \<Rightarrow> 64 word" where
  "counter_value name cs = (case map_of cs name of Some c \<Rightarrow> c | None \<Rightarrow> 0)"

definition incrementCounter :: "string \<Rightarrow> Metrics \<Rightarrow> Metrics" where
  "incrementCounter name cs =
     (let cs = (if map_of cs name = None then AList.update name 0 cs else cs)
      in AList.update name (counter_value name cs + 1) cs)"

section \<open>The proxy worker (throttlebox.cpp)\<close>

subsection \<open>Environment\<close>

text \<open>
  What the operating system answers is an input of the model. A \<open>recv\<close> either fails
  (return value \<open>-1\<close>) or delivers a prefix of the pending bytes, at most as many as the
  buffer holds; a C \<open>char\<close> is an Isabelle \<open>char\<close>, a byte. Whether \<open>char\<close> is signed is
  implementation-defined (signed on x86, unsigned on ARM Linux), so it is a parameter
  \<open>char_signed\<close> of the parser.
\<close>

datatype recv_result = RecvError | RecvData string

fun recv :: "nat \<Rightarrow> recv_result \<Rightarrow> int \<times> string" where
  "recv cap RecvError = (- 1, [])"
| "recv cap (RecvData d) = (int (length (take cap d)), take cap d)"

record broker_env =
  socket_result :: int
  pton_ok :: bool
  connect_ok :: bool

record client_chunk =
  client_recv :: recv_result
  clock_check :: time_point
  clock_refill :: time_point
  broker_sent :: int

record broker_chunk =
  broker_recv :: recv_result
  client_sent :: int

text \<open>
  One iteration of the pump loop: \<open>select\<close> times out or fails (\<open>Idle\<close>), or reports the
  client socket, the broker socket or both readable, with what the following calls return.
\<close>

datatype pump_event = Idle | Ready "client_chunk option" "broker_chunk option"

record worker_env =
  peer :: "string option"
  peeked :: recv_result
  broker :: broker_env
  pump :: "pump_event list"

subsection \<open>State\<close>

datatype effect = SocketOpened int | SocketClosed int | Sent int string

record ClientInfo =
  ip :: string
  clientId :: string

definition empty_ClientInfo :: ClientInfo where
  "empty_ClientInfo = \<lparr>ip = [], clientId = []\<rparr>"

record ThrottleBox =
  rateLimiter :: RateLimiter
  metrics :: Metrics
  io :: "effect list"

subsection \<open>extractClientInfo\<close>

text \<open>Integral promotion of a \<open>char\<close> to a 32-bit \<open>int\<close>.\<close>

definition char_to_int :: "bool \<Rightarrow> char \<Rightarrow> 32 word" where
  "char_to_int char_signed c =
     (if char_signed then scast (of_char c :: 8 word) else ucast (of_char c :: 8 word))"

text \<open>\<open>uint16_t clientIdLen = (buffer[pos] << 8) | buffer[pos + 1]\<close>.\<close>

definition clientIdLen_of :: "bool \<Rightarrow> char \<Rightarrow> char \<Rightarrow> 16 word" where
  "clientIdLen_of char_signed c0 c1 =
     ucast (push_bit 8 (char_to_int char_signed c0) OR char_to_int char_signed c1)"

text \<open>
  Lines 178 to 192 of \<open>extractClientInfo\<close>, the CONNECT parsing: the string assigned to
  \<open>info.clientId\<close>, or \<open>None\<close> when no assignment is made.
\<close>

definition parseConnect :: "bool \<Rightarrow> int \<Rightarrow> string \<Rightarrow> string option" where
  "parseConnect char_signed bytesRead buffer =
     (if char_to_int char_signed (buffer ! 0) = 0x10
      then
        let pos = (10 :: int) in
        if pos + 2 < bytesRead
        then
          let clientIdLen = clientIdLen_of char_signed (buffer ! 10) (buffer ! 11);
              pos = pos + 2
          in if pos + uint clientIdLen < bytesRead
             then Some (take (unat clientIdLen) (drop (nat pos) buffer))
             else None
        else None
      else None)"

definition extractClientInfo ::
  "bool \<Rightarrow> string option \<Rightarrow> recv_result \<Rightarrow> ClientInfo \<Rightarrow> bool \<times> ClientInfo" where
  "extractClientInfo char_signed peer_name peek info =
     (let info = info\<lparr>ip := (case peer_name of Some a \<Rightarrow> a | None \<Rightarrow> ''unknown'')\<rparr>;
          (bytesRead, buffer) = recv 1024 peek
      in if bytesRead < 10 then (False, info)
         else
           let info = (case parseConnect char_signed bytesRead buffer of
                         Some cid \<Rightarrow> info\<lparr>clientId := cid\<rparr>
                       | None \<Rightarrow> info);
               info = (if clientId info = []
                       then info\<lparr>clientId := ''anonymous_'' @ ip info\<rparr> else info)
           in (True, info))"

subsection \<open>connectToBroker\<close>

definition connectToBroker :: "broker_env \<Rightarrow> ThrottleBox \<Rightarrow> int \<times> ThrottleBox" where
  "connectToBroker env st =
     (let brokerSocket = socket_result env in
      if brokerSocket < 0 then (- 1, st)
      else
        let st = st\<lparr>io := io st @ [SocketOpened brokerSocket]\<rparr> in
        if \<not> pton_ok env then (- 1, st\<lparr>io := io st @ [SocketClosed brokerSocket]\<rparr>)
        else if \<not> connect_ok env then (- 1, st\<lparr>io := io st @ [SocketClosed brokerSocket]\<rparr>)
        else (brokerSocket, st))"

subsection \<open>forwardTraffic\<close>

text \<open>
  How one half of a loop iteration ends: \<open>break\<close>, \<open>continue\<close>, or falling through to the
  next statement.
\<close>

datatype 'a flow = Break 'a | Continue 'a | Next 'a

fun flow_state :: "'a flow \<Rightarrow> 'a" where
  "flow_state (Break st) = st"
| "flow_state (Continue st) = st"
| "flow_state (Next st) = st"

text \<open>The block under \<open>if (FD_ISSET(clientSocket, &readfds))\<close>.\<close>

definition client_to_broker :: "client_chunk \<Rightarrow> int \<Rightarrow> ClientInfo \<Rightarrow> ThrottleBox \<Rightarrow> ThrottleBox flow" where
  "client_to_broker ch brokerSocket info st =
     (let (bytesRead, buffer) = recv 4096 (client_recv ch) in
      if bytesRead \<le> 0 then Break st
      else
        let (allowed, rl) = allow (clock_check ch) (clock_refill ch) (ip info) (clientId info)
                              (rateLimiter st);
            st = st\<lparr>rateLimiter := rl\<rparr>
        in if \<not> allowed
           then Continue (st\<lparr>metrics := incrementCounter ''blocked_messages'' (metrics st)\<rparr>)
           else
             let st = st\<lparr>metrics := incrementCounter ''allowed_messages'' (metrics st)\<rparr>;
                 bytesSent = broker_sent ch;
                 st = (if 0 < bytesSent
                       then st\<lparr>io := io st @ [Sent brokerSocket (take (nat bytesSent) buffer)]\<rparr>
                       else st)
             in if bytesSent \<noteq> bytesRead then Break st else Next st)"

text \<open>The block under \<open>if (FD_ISSET(brokerSocket, &readfds))\<close>.\<close>

definition broker_to_client :: "broker_chunk \<Rightarrow> int \<Rightarrow> ThrottleBox \<Rightarrow> ThrottleBox flow" where
  "broker_to_client ch clientSocket st =
     (let (bytesRead, buffer) = recv 4096 (broker_recv ch) in
      if bytesRead \<le> 0 then Break st
      else
        let bytesSent = client_sent ch;
            st = (if 0 < bytesSent
                  then st\<lparr>io := io st @ [Sent clientSocket (take (nat bytesSent) buffer)]\<rparr>
                  else st)
        in if bytesSent \<noteq> bytesRead then Break st else Next st)"

text \<open>
  The \<open>while (running_)\<close> loop. The script lists the iterations entered while \<open>running_\<close>
  is set; at its end \<open>stop()\<close> has cleared the flag. Every exit closes the broker socket.
\<close>

fun forwardTraffic ::
  "pump_event list \<Rightarrow> int \<Rightarrow> int \<Rightarrow> ClientInfo \<Rightarrow> ThrottleBox \<Rightarrow> ThrottleBox" where
  "forwardTraffic [] clientSocket brokerSocket info st =
     st\<lparr>io := io st @ [SocketClosed brokerSocket]\<rparr>"
| "forwardTraffic (Idle # evs) clientSocket brokerSocket info st =
     forwardTraffic evs clientSocket brokerSocket info st"
| "forwardTraffic (Ready c b # evs) clientSocket brokerSocket info st =
     (case (case c of None \<Rightarrow> Next st
                    | Some ch \<Rightarrow> client_to_broker ch brokerSocket info st) of
        Break st \<Rightarrow> st\<lparr>io := io st @ [SocketClosed brokerSocket]\<rparr>
      | Continue st \<Rightarrow> forwardTraffic evs clientSocket brokerSocket info st
      | Next st \<Rightarrow>
          (case (case b of None \<Rightarrow> Next st
                         | Some ch \<Rightarrow> broker_to_client ch clientSocket st) of
             Break st \<Rightarrow> st\<lparr>io := io st @ [SocketClosed brokerSocket]\<rparr>
           | Continue st \<Rightarrow> forwardTraffic evs clientSocket brokerSocket info st
           | Next st \<Rightarrow> forwardTraffic evs clientSocket brokerSocket info st))"

subsection \<open>handleClient\<close>

definition handleClient :: "bool \<Rightarrow> worker_env \<Rightarrow> int \<Rightarrow> ThrottleBox \<Rightarrow> ThrottleBox" where
  "handleClient char_signed env clientSocket st =
     (let (ok, clientInfo) =
            extractClientInfo char_signed (peer env) (peeked env) empty_ClientInfo
      in if \<not> ok then st\<lparr>io := io st @ [SocketClosed clientSocket]\<rparr>
         else
           let (brokerSocket, st) = connectToBroker (broker env) st in
           if brokerSocket < 0 then st\<lparr>io := io st @ [SocketClosed clientSocket]\<rparr>
           else
             let st = forwardTraffic (pump env) clientSocket brokerSocket clientInfo st;
                 st = st\<lparr>io := io st @ [SocketClosed clientSocket]\<rparr>
             in st\<lparr>metrics := incrementCounter ''client_disconnects'' (metrics st)\<rparr>)"

section \<open>The specification's wording\<close>

text \<open>
  The single decision of the specification, in its three numbered steps, on one bucket
  \<open>B\<close> under the effective policy \<open>P\<close>. The specification speaks of one time \<open>now\<close>;
  here the time of the refill (\<open>t_refill\<close>) and the time of the block check and of
  \<open>blocked_until\<close> (\<open>t_block\<close>) are kept apart, and the decision at one time is the one
  with both equal. Elapsed time is in whole milliseconds; one second is 1000000000 ticks.
\<close>

definition spec_elapsed_seconds :: "arith \<Rightarrow> time_point \<Rightarrow> TokenBucket \<Rightarrow> real" where
  "spec_elapsed_seconds ar t B =
     divide_d ar (to_double ar ((t - lastRefill B) div 1000000)) 1000"

definition spec_refill ::
  "arith \<Rightarrow> time_point \<Rightarrow> RateLimitPolicy \<Rightarrow> TokenBucket \<Rightarrow> TokenBucket" where
  "spec_refill ar t P B =
     (if lastRefill B = 0
      then B\<lparr>tokens := of_int (burstSize P), lastRefill := t\<rparr>
      else B\<lparr>tokens := min (of_int (burstSize P))
                          (plus_d ar (tokens B)
                             (times_d ar (spec_elapsed_seconds ar t B) (maxMessagesPerSec P))),
             lastRefill := t\<rparr>)"

text \<open>Step 2 either denies (\<open>None\<close>) or continues with a bucket.\<close>

definition spec_block_check :: "time_point \<Rightarrow> TokenBucket \<Rightarrow> TokenBucket option" where
  "spec_block_check t B =
     (if isBlocked B \<and> t < blockedUntil B then None
      else if isBlocked B \<and> blockedUntil B \<le> t then Some (B\<lparr>isBlocked := False\<rparr>)
      else Some B)"

definition spec_consume ::
  "arith \<Rightarrow> time_point \<Rightarrow> RateLimitPolicy \<Rightarrow> TokenBucket \<Rightarrow> bool \<times> TokenBucket" where
  "spec_consume ar t P B =
     (if 1 \<le> tokens B then (True, B\<lparr>tokens := minus_d ar (tokens B) 1\<rparr>)
      else if 0 < blockDurationSec P
      then (False, B\<lparr>isBlocked := True,
                     blockedUntil := t + blockDurationSec P * 1000000000\<rparr>)
      else (False, B))"

definition spec_decision ::
  "arith \<Rightarrow> time_point \<Rightarrow> time_point \<Rightarrow> RateLimitPolicy \<Rightarrow> TokenBucket
   \<Rightarrow> bool \<times> TokenBucket" where
  "spec_decision ar t_block t_refill P B =
     (let B1 = spec_refill ar t_refill P B in
      case spec_block_check t_block B1 of
        None \<Rightarrow> (False, B1)
      | Some B2 \<Rightarrow> spec_consume ar t_block P B2)"

definition spec_decision_at ::
  "arith \<Rightarrow> time_point \<Rightarrow> RateLimitPolicy \<Rightarrow> TokenBucket \<Rightarrow> bool \<times> TokenBucket" where
  "spec_decision_at ar now P B = spec_decision ar now now P B"

text \<open>The 16-bit big-endian value of two bytes, and a byte with its high bit set.\<close>

definition be16 :: "char \<Rightarrow> char \<Rightarrow> 16 word" where
  "be16 c0 c1 = push_bit 8 (ucast (of_char c0 :: 8 word)) OR ucast (of_char c1 :: 8 word)"

definition high_bit :: "char \<Rightarrow> bool" where
  "high_bit c = (0x80 \<le> (of_char c :: 8 word))"

text \<open>
  The CONNECT parser as the specification words it, for a length field at \<open>offset\<close>:
  the first byte must be \<open>0x10\<close>; the big-endian length is read at the offset and that
  many payload bytes follow it; a payload that runs past the buffer is not recognized.
\<close>

definition spec_parse :: "nat \<Rightarrow> string \<Rightarrow> string option" where
  "spec_parse offset buffer =
     (if buffer \<noteq> [] \<and> buffer ! 0 = CHR 0x10 \<and> offset + 2 \<le> length buffer
      then
        let len = unat (be16 (buffer ! offset) (buffer ! (offset + 1)))
        in if length buffer < offset + 2 + len then None
           else Some (take len (drop (offset + 2) buffer))
      else None)"

section \<open>Concrete states used as examples\<close>

definition small_burst_policy :: RateLimitPolicy where
  "small_burst_policy = \<lparr>maxMessagesPerSec = 10, burstSize = 5, blockDurationSec = 60\<rparr>"

text \<open>One allowed call for client \<open>c\<close> under the default policy, then an override of burst 5.\<close>

definition overridden_state :: RateLimiter where
  "overridden_state = setClientPolicy ''c'' small_burst_policy
     (snd (allow 1000 1000 ''1.1.1.1'' ''c'' (new_RateLimiter default_RateLimitPolicy)))"

text \<open>Client \<open>c\<close> blocked at second 1 for the default 60 seconds.\<close>

definition blocked_bucket :: TokenBucket where
  "blocked_bucket =
     \<lparr>tokens = 0, lastRefill = 1000000000, blockedUntil = 61000000000, isBlocked = True\<rparr>"

definition blocked_state :: RateLimiter where
  "blocked_state =
     \<lparr>defaultPolicy = default_RateLimitPolicy, clientPolicies = [],
      buckets = [(''c'', blocked_bucket)], allowedMessages = 20, blockedMessages = 1\<rparr>"

text \<open>
  Peeked buffers. A CONNECT of MQTT 3.1 (protocol name \<open>MQIsdp\<close>), whose Client-ID
  length stands at offset 14 and whose Client-ID is \<open>ab\<close>; a CONNECT of MQTT 3.1.1 with
  keep-alive 3 and Client-ID \<open>dev\<close>; and a buffer whose bytes 10 and 11 announce 128
  bytes, followed by 129. \<open>test_mock_connect\<close> is the mock CONNECT of the repository's
  integration test, with Client-ID \<open>test_client\<close>.
\<close>

definition mqisdp_connect :: string where
  "mqisdp_connect =
     [CHR 0x10, CHR 0x11, CHR 0x00, CHR 0x06, CHR ''M'', CHR ''Q'', CHR ''I'', CHR ''s'',
      CHR ''d'', CHR ''p'', CHR 0x03, CHR 0x02, CHR 0x00, CHR 0x3C, CHR 0x00, CHR 0x02,
      CHR ''a'', CHR ''b'', CHR 0x00]"

definition mqtt311_connect :: string where
  "mqtt311_connect =
     [CHR 0x10, CHR 0x0F, CHR 0x00, CHR 0x04, CHR ''M'', CHR ''Q'', CHR ''T'', CHR ''T'',
      CHR 0x04, CHR 0x02, CHR 0x00, CHR 0x03, CHR 0x00, CHR 0x03, CHR ''d'', CHR ''e'',
      CHR ''v'']"

definition test_mock_connect :: string where
  "test_mock_connect =
     [CHR 0x10, CHR 0x1A, CHR 0x00, CHR 0x04, CHR ''M'', CHR ''Q'', CHR ''T'', CHR ''T'',
      CHR 0x04, CHR 0x00, CHR 0x00, CHR 0x3C, CHR 0x00, CHR 0x0B] @ ''test_client''"

definition long_id_connect :: string where
  "long_id_connect =
     CHR 0x10 # replicate 9 (CHR 0x00) @ [CHR 0x00, CHR 0x80] @ replicate 129 (CHR ''a'')"

text \<open>A fresh proxy, and workers whose client sends one chunk after the peek.\<close>

definition example_box :: ThrottleBox where
  "example_box =
     \<lparr>rateLimiter = new_RateLimiter default_RateLimitPolicy, metrics = new_Metrics, io = []\<rparr>"

definition example_chunk :: client_chunk where
  "example_chunk =
     \<lparr>client_recv = RecvData ''x'', clock_check = 1000, clock_refill = 1000, broker_sent = 1\<rparr>"

definition one_chunk :: "pump_event list" where
  "one_chunk = [Ready (Some example_chunk) None]"

definition anonymous_env :: worker_env where
  "anonymous_env =
     \<lparr>peer = Some ''10.0.0.1'', peeked = RecvData (replicate 10 (CHR 0x00)),
      broker = \<lparr>socket_result = 5, pton_ok = True, connect_ok = True\<rparr>,
      pump = one_chunk\<rparr>"

definition short_env :: worker_env where
  "short_env =
     \<lparr>peer = Some ''10.0.0.1'', peeked = RecvData ''abc'',
      broker = \<lparr>socket_result = 5, pton_ok = True, connect_ok = True\<rparr>,
      pump = one_chunk\<rparr>"

section \<open>Properties of the rate limiter\<close>

lemmas limiter_eval = allow_def checkAndUpdateBucket_def refillBucket_def bucket_at_def
  bucket_key_def policy_for_def new_RateLimiter_def default_RateLimitPolicy_def
  default_TokenBucket_def setClientPolicy_def to_milliseconds_def seconds_def
  Let_def

lemma refillBucket_block_fields:
  "isBlocked (refillBucket now B P) = isBlocked B
   \<and> blockedUntil (refillBucket now B P) = blockedUntil B
   \<and> lastRefill (refillBucket now B P) = now"
  by (simp add: refillBucket_def Let_def)

lemma bucket_at_update:
  "bucket_at k (AList.update key b bs) = (if k = key then b else bucket_at k bs)"
  by (simp add: bucket_at_def update_conv')

lemma checkAndUpdateBucket_frame:
  "k \<noteq> key \<Longrightarrow>
   map_of (buckets (snd (checkAndUpdateBucket now nr key P s))) k = map_of (buckets s) k"
  by (simp add: checkAndUpdateBucket_def Let_def update_conv')

lemma allow_buckets:
  "buckets (snd (allow now nr addr cid s))
   = buckets (snd (checkAndUpdateBucket now nr (bucket_key addr cid) (policy_for cid s) s))"
  by (simp add: allow_def Let_def split: prod.splits)

lemma allow_frame:
  "k \<noteq> bucket_key addr cid \<Longrightarrow>
   map_of (buckets (snd (allow now nr addr cid s))) k = map_of (buckets s) k"
  by (simp add: allow_buckets checkAndUpdateBucket_frame)

lemma to_milliseconds_floor: "0 \<le> d \<Longrightarrow> to_milliseconds d = d div 1000000"
  by (simp add: to_milliseconds_def)

lemma refillBucket_rounded_spec:
  "lastRefill B \<le> t \<Longrightarrow> refillBucket_rounded ar t B P = spec_refill ar t P B"
  by (simp add: refillBucket_rounded_def spec_refill_def spec_elapsed_seconds_def
        to_milliseconds_floor Let_def)

text \<open>With exact arithmetic the rounding model is the model of the first section.\<close>

lemma refillBucket_rounded_exact: "refillBucket_rounded exact_arith t B P = refillBucket t B P"
  by (simp add: refillBucket_rounded_def refillBucket_def exact_arith_def Let_def)

lemma minus_d_exact: "minus_d exact_arith x y = x - y"
  by (simp add: exact_arith_def)

lemma checkAndUpdateBucket_rounded_exact:
  "checkAndUpdateBucket_rounded exact_arith now nr key P s = checkAndUpdateBucket now nr key P s"
  by (simp add: checkAndUpdateBucket_rounded_def checkAndUpdateBucket_def
        refillBucket_rounded_exact minus_d_exact Let_def)

lemma allow_rounded_exact: "allow_rounded exact_arith now nr addr cid s = allow now nr addr cid s"
  by (simp add: allow_rounded_def allow_def checkAndUpdateBucket_rounded_exact)

lemmas rounded_eval = allow_rounded_def checkAndUpdateBucket_rounded_def refillBucket_rounded_def
  exact_arith_def spec_decision_def spec_decision_at_def spec_refill_def spec_elapsed_seconds_def
  spec_block_check_def spec_consume_def

text \<open>
  C2, as stated, fails when the two clock readings of one call differ: \<open>allow\<close> reads
  the clock on entry and \<open>refillBucket\<close> reads it again. Client \<open>c\<close> is blocked until
  tick 61000000000; a call reads 60999999999 on entry and 61000000005 in the refill. The
  call is denied and stamps \<open>lastRefill\<close> 61000000005. The decision of the claim at the
  one time 60999999999 stamps 60999999999, and at the one time 61000000005 it unblocks and
  allows. (All values here are exact in \<open>double\<close>.)
\<close>

theorem two_clock_readings_straddle_block:
  "allow_rounded exact_arith 60999999999 61000000005 ''1.1.1.1'' ''c'' blocked_state
     = (False, blocked_state\<lparr>buckets := [(''c'',
          \<lparr>tokens = 20, lastRefill = 61000000005, blockedUntil = 61000000000,
           isBlocked = True\<rparr>)], blockedMessages := 2\<rparr>)
   \<and> spec_decision_at exact_arith 60999999999 default_RateLimitPolicy blocked_bucket
     = (False, \<lparr>tokens = 20, lastRefill = 60999999999, blockedUntil = 61000000000,
                isBlocked = True\<rparr>)
   \<and> spec_decision_at exact_arith 61000000005 default_RateLimitPolicy blocked_bucket
     = (True, \<lparr>tokens = 19, lastRefill = 61000000005, blockedUntil = 61000000000,
               isBlocked = False\<rparr>)"
  by (simp add: blocked_state_def blocked_bucket_def rounded_eval limiter_eval)

text \<open>No single time at all gives the bucket that call leaves behind.\<close>

lemma spec_decision_at_stamp: "lastRefill (snd (spec_decision_at ar t P B)) = t"
  by (simp add: spec_decision_at_def spec_decision_def spec_refill_def spec_block_check_def
        spec_consume_def Let_def)

lemma no_single_time_for_straddle:
  "spec_decision_at exact_arith t default_RateLimitPolicy blocked_bucket
   \<noteq> (False, \<lparr>tokens = 20, lastRefill = 61000000005, blockedUntil = 61000000000,
              isBlocked = True\<rparr>)"
proof
  assume a: "spec_decision_at exact_arith t default_RateLimitPolicy blocked_bucket
   = (False, \<lparr>tokens = 20, lastRefill = 61000000005, blockedUntil = 61000000000,
              isBlocked = True\<rparr>)"
  have "t = 61000000005"
    using spec_decision_at_stamp [of exact_arith t default_RateLimitPolicy blocked_bucket]
    by (simp add: a)
  then show False using a
    by (simp add: blocked_bucket_def rounded_eval default_RateLimitPolicy_def)
qed

text \<open>
  C2, amended. For every bucket, effective policy and call to \<open>allow\<close>, whatever the
  rounding of the \<open>double\<close> operations, with \<open>now\<close> the clock reading on entry and
  \<open>now_refill\<close> the reading inside the refill (not before the bucket's \<open>lastRefill\<close>):
  the call first refills at \<open>now_refill\<close> (a bucket never touched is filled to the burst
  capacity; any other gets the minimum of the capacity and its tokens plus the elapsed
  seconds, in whole milliseconds, times the rate; either is stamped \<open>now_refill\<close>), then
  checks the block state at \<open>now\<close> (deny inside the window; unblock at or after its end
  and go on), then consumes (one token taken and allow when at least one is there;
  otherwise deny, and block until \<open>now\<close> plus the block duration exactly when that
  duration is positive). The matching counter is incremented. When the two readings are
  the same time, this is the decision at that one time.
\<close>

theorem allow_refines_spec_decision:
  assumes "lastRefill (bucket_at (bucket_key addr cid) (buckets s)) \<le> now_refill"
  shows "allow_rounded ar now now_refill addr cid s =
     (let B = bucket_at (bucket_key addr cid) (buckets s);
          (verdict, B') = spec_decision ar now now_refill (policy_for cid s) B;
          s' = s\<lparr>buckets := AList.update (bucket_key addr cid) B' (buckets s)\<rparr>
      in (verdict, if verdict then s'\<lparr>allowedMessages := allowedMessages s + 1\<rparr>
                   else s'\<lparr>blockedMessages := blockedMessages s + 1\<rparr>))
    \<and> spec_decision ar now now (policy_for cid s) (bucket_at (bucket_key addr cid) (buckets s))
       = spec_decision_at ar now (policy_for cid s) (bucket_at (bucket_key addr cid) (buckets s))"
  by (simp add: allow_rounded_def checkAndUpdateBucket_rounded_def spec_decision_def
        spec_decision_at_def spec_block_check_def spec_consume_def
        refillBucket_rounded_spec [OF assms] seconds_def Let_def)

theorem allow_refines_spec_decision_witness:
  "lastRefill (bucket_at (bucket_key ''1.1.1.1'' ''c'') (buckets blocked_state)) \<le> 61000000005
   \<and> allow_rounded exact_arith 60999999999 61000000005 ''1.1.1.1'' ''c'' blocked_state
     = (False, blocked_state\<lparr>buckets := [(''c'',
          \<lparr>tokens = 20, lastRefill = 61000000005, blockedUntil = 61000000000,
           isBlocked = True\<rparr>)], blockedMessages := 2\<rparr>)
   \<and> spec_decision exact_arith 60999999999 61000000005 default_RateLimitPolicy blocked_bucket
     = (False, \<lparr>tokens = 20, lastRefill = 61000000005, blockedUntil = 61000000000,
                isBlocked = True\<rparr>)"
proof -
  have h: "lastRefill (bucket_at (bucket_key ''1.1.1.1'' ''c'') (buckets blocked_state))
           \<le> 61000000005"
    by (simp add: blocked_state_def blocked_bucket_def bucket_at_def bucket_key_def)
  note t = allow_refines_spec_decision [OF h, of exact_arith 60999999999]
  have d: "spec_decision exact_arith 60999999999 61000000005 default_RateLimitPolicy blocked_bucket
     = (False, \<lparr>tokens = 20, lastRefill = 61000000005, blockedUntil = 61000000000,
                isBlocked = True\<rparr>)"
    by (simp add: blocked_bucket_def rounded_eval default_RateLimitPolicy_def)
  have B: "bucket_at (bucket_key ''1.1.1.1'' ''c'') (buckets blocked_state) = blocked_bucket"
    by (simp add: blocked_state_def bucket_at_def bucket_key_def)
  have P: "policy_for ''c'' blocked_state = default_RateLimitPolicy"
    by (simp add: blocked_state_def policy_for_def)
  have a: "allow_rounded exact_arith 60999999999 61000000005 ''1.1.1.1'' ''c'' blocked_state
     = (False, blocked_state\<lparr>buckets := [(''c'',
          \<lparr>tokens = 20, lastRefill = 61000000005, blockedUntil = 61000000000,
           isBlocked = True\<rparr>)], blockedMessages := 2\<rparr>)"
    using t by (simp add: B P d) (simp add: blocked_state_def bucket_key_def)
  show ?thesis by (intro conjI h a d)
qed

text \<open>
  C4. Every call to \<open>allow\<close> adds 1 to exactly one of the two cumulative counters:
  to \<open>allowedMessages\<close> when it returns allow, to \<open>blockedMessages\<close> when it returns
  deny; the other counter keeps its value. (The counters are 64-bit, so the addition is
  the machine's.)
\<close>

theorem allow_increments_exactly_one_counter:
  "allowedMessages (snd (allow now nr addr cid s))
     = allowedMessages s + (if fst (allow now nr addr cid s) then 1 else 0)
   \<and> blockedMessages (snd (allow now nr addr cid s))
     = blockedMessages s + (if fst (allow now nr addr cid s) then 0 else 1)"
  by (simp add: allow_def checkAndUpdateBucket_def Let_def split: prod.splits)

text \<open>
  C7. \<open>setClientPolicy\<close> installs or replaces the override for the client id and changes
  nothing else: the bucket table is the same table (no bucket created, none reset, every
  field of every bucket as it was), and the default policy and both counters are unchanged.
\<close>

theorem setClientPolicy_frame:
  "map_of (clientPolicies (setClientPolicy cid p s)) = (map_of (clientPolicies s))(cid \<mapsto> p)
   \<and> buckets (setClientPolicy cid p s) = buckets s
   \<and> defaultPolicy (setClientPolicy cid p s) = defaultPolicy s
   \<and> allowedMessages (setClientPolicy cid p s) = allowedMessages s
   \<and> blockedMessages (setClientPolicy cid p s) = blockedMessages s"
  by (simp add: setClientPolicy_def update_conv')

lemma cleanup_loop_filter:
  "cleanup_loop now bs = filter (\<lambda>(k, b). \<not> lastRefill b + 3600000000000 < now) bs"
  by (induction bs) (auto simp: hours_def Let_def)

text \<open>
  C8. \<open>cleanupExpired\<close> at time \<open>now\<close> keeps, in order, exactly the bucket entries whose
  \<open>lastRefill\<close> is not more than one hour (3600000000000 ns) before \<open>now\<close> and removes
  the others; the override table, the default policy and both counters are unchanged; and
  running it a second time at the same \<open>now\<close> changes nothing more.
\<close>

theorem cleanupExpired_exact_and_idempotent:
  "buckets (cleanupExpired now s)
     = filter (\<lambda>(k, b). \<not> lastRefill b + 3600000000000 < now) (buckets s)
   \<and> clientPolicies (cleanupExpired now s) = clientPolicies s
   \<and> defaultPolicy (cleanupExpired now s) = defaultPolicy s
   \<and> allowedMessages (cleanupExpired now s) = allowedMessages s
   \<and> blockedMessages (cleanupExpired now s) = blockedMessages s
   \<and> cleanupExpired now (cleanupExpired now s) = cleanupExpired now s"
  by (simp add: cleanupExpired_def cleanup_loop_filter)

text \<open>
  C10. A call to \<open>allow\<close> on a bucket that is blocked with \<open>now\<close> before \<open>blockedUntil\<close>
  is denied and leaves \<open>blockedUntil\<close> and \<open>isBlocked\<close> as they were: the stored bucket
  afterwards is the old one with only \<open>tokens\<close> and \<open>lastRefill\<close> replaced by the refill.
\<close>

theorem blocked_deny_keeps_block:
  assumes "map_of (buckets s) (bucket_key addr cid) = Some B"
    and "isBlocked B" and "now < blockedUntil B"
  shows "fst (allow now nr addr cid s) = False
    \<and> map_of (buckets (snd (allow now nr addr cid s))) (bucket_key addr cid)
        = Some (B\<lparr>tokens := tokens (refillBucket nr B (policy_for cid s)), lastRefill := nr\<rparr>)"
proof -
  let ?P = "policy_for cid s"
  have B: "bucket_at (bucket_key addr cid) (buckets s) = B"
    using assms(1) by (simp add: bucket_at_def)
  have r: "refillBucket nr B ?P = B\<lparr>tokens := tokens (refillBucket nr B ?P), lastRefill := nr\<rparr>"
    by (simp add: refillBucket_def Let_def)
  have blk: "isBlocked (refillBucket nr B ?P) \<and> now < blockedUntil (refillBucket nr B ?P)"
    using assms(2,3) by (simp add: refillBucket_block_fields)
  show ?thesis
    using blk r by (simp add: allow_def checkAndUpdateBucket_def B Let_def update_conv')
qed

theorem blocked_deny_keeps_block_witness:
  "map_of (buckets blocked_state) (bucket_key ''1.1.1.1'' ''c'') = Some blocked_bucket
   \<and> isBlocked blocked_bucket
   \<and> 31000000000 < blockedUntil blocked_bucket
   \<and> fst (allow 31000000000 31000000001 ''1.1.1.1'' ''c'' blocked_state) = False
   \<and> map_of (buckets (snd (allow 31000000000 31000000001 ''1.1.1.1'' ''c'' blocked_state))) ''c''
       = Some \<lparr>tokens = 20, lastRefill = 31000000001, blockedUntil = 61000000000,
               isBlocked = True\<rparr>"
proof -
  have h1: "map_of (buckets blocked_state) (bucket_key ''1.1.1.1'' ''c'') = Some blocked_bucket"
    by (simp add: blocked_state_def bucket_key_def)
  have h2: "isBlocked blocked_bucket"
    by (simp add: blocked_bucket_def)
  have h3: "31000000000 < blockedUntil blocked_bucket"
    by (simp add: blocked_bucket_def)
  show ?thesis
    using h1 h2 h3 blocked_deny_keeps_block [OF h1 h2 h3, of 31000000001]
    by (simp add: blocked_state_def blocked_bucket_def limiter_eval)
qed

lemma to_milliseconds_nonneg: "0 \<le> a \<Longrightarrow> 0 \<le> to_milliseconds a"
  by (simp add: to_milliseconds_def pos_imp_zdiv_nonneg_iff)

lemma refill_bounds:
  assumes "0 \<le> burstSize P" and "0 \<le> maxMessagesPerSec P"
    and "0 \<le> tokens B" and "lastRefill B \<le> nr"
  shows "0 \<le> tokens (refillBucket nr B P) \<and> tokens (refillBucket nr B P) \<le> of_int (burstSize P)"
proof -
  have "0 \<le> to_milliseconds (nr - lastRefill B)"
    using assms(4) by (simp add: to_milliseconds_nonneg)
  then have "0 \<le> real_of_int (to_milliseconds (nr - lastRefill B)) / 1000 * maxMessagesPerSec P"
    using assms(2) by simp
  then show ?thesis using assms(1,3) by (simp add: refillBucket_def Let_def)
qed

lemma checkAndUpdateBucket_tokens:
  "tokens (bucket_at key (buckets (snd (checkAndUpdateBucket now nr key P s))))
   = (let t = tokens (refillBucket nr (bucket_at key (buckets s)) P);
          blocked = isBlocked (bucket_at key (buckets s))
                    \<and> now < blockedUntil (bucket_at key (buckets s))
      in if \<not> blocked \<and> 1 \<le> t then t - 1 else t)"
  by (simp add: checkAndUpdateBucket_def Let_def bucket_at_update refillBucket_block_fields)

text \<open>
  C5, as stated, fails right after an override is installed: the bucket of client \<open>c\<close>
  holds 19 tokens from its call under the default policy (burst 20), and the policy now
  governing it has burst capacity 5.
\<close>

theorem tokens_exceed_replaced_policy:
  "tokens (bucket_at ''c'' (buckets overridden_state)) = 19
   \<and> burstSize (policy_for ''c'' overridden_state) = 5
   \<and> \<not> tokens (bucket_at ''c'' (buckets overridden_state))
         \<le> of_int (burstSize (policy_for ''c'' overridden_state))"
  by (simp add: overridden_state_def small_burst_policy_def limiter_eval)

text \<open>
  C5, amended. After a call to \<open>allow\<close> the bucket it touched holds between 0 and the
  burst capacity of the policy that call used, provided that policy has a non-negative
  rate and capacity, the bucket held at least 0 tokens before, and the clock reading of
  the refill is not before the bucket's \<open>lastRefill\<close>. \<open>setClientPolicy\<close> leaves the
  bucket table as it is and \<open>cleanupExpired\<close> only removes entries, so between calls a
  bucket's tokens are bounded by the capacity in force at its last \<open>allow\<close>, not by a
  capacity installed since.
\<close>

theorem tokens_bounded_after_allow:
  assumes "0 \<le> burstSize (policy_for cid s)" and "0 \<le> maxMessagesPerSec (policy_for cid s)"
    and "0 \<le> tokens (bucket_at (bucket_key addr cid) (buckets s))"
    and "lastRefill (bucket_at (bucket_key addr cid) (buckets s)) \<le> nr"
  shows "0 \<le> tokens (bucket_at (bucket_key addr cid) (buckets (snd (allow now nr addr cid s))))
    \<and> tokens (bucket_at (bucket_key addr cid) (buckets (snd (allow now nr addr cid s))))
        \<le> of_int (burstSize (policy_for cid s))
    \<and> buckets (setClientPolicy cid' p s) = buckets s
    \<and> set (buckets (cleanupExpired now s)) \<subseteq> set (buckets s)"
proof -
  let ?B = "bucket_at (bucket_key addr cid) (buckets s)"
  let ?P = "policy_for cid s"
  have r: "0 \<le> tokens (refillBucket nr ?B ?P)
           \<and> tokens (refillBucket nr ?B ?P) \<le> of_int (burstSize ?P)"
    using assms by (rule refill_bounds)
  have "0 \<le> tokens (bucket_at (bucket_key addr cid) (buckets (snd (allow now nr addr cid s))))
    \<and> tokens (bucket_at (bucket_key addr cid) (buckets (snd (allow now nr addr cid s))))
        \<le> of_int (burstSize ?P)"
    unfolding allow_buckets checkAndUpdateBucket_tokens using r by (simp add: Let_def)
  moreover have "buckets (setClientPolicy cid' p s) = buckets s"
    by (simp add: setClientPolicy_def)
  moreover have "set (buckets (cleanupExpired now s)) \<subseteq> set (buckets s)"
    by (simp add: cleanupExpired_def cleanup_loop_filter)
  ultimately show ?thesis by simp
qed

theorem tokens_bounded_after_allow_witness:
  "0 \<le> burstSize (policy_for ''c'' blocked_state)
   \<and> 0 \<le> maxMessagesPerSec (policy_for ''c'' blocked_state)
   \<and> 0 \<le> tokens (bucket_at (bucket_key ''1.1.1.1'' ''c'') (buckets blocked_state))
   \<and> lastRefill (bucket_at (bucket_key ''1.1.1.1'' ''c'') (buckets blocked_state)) \<le> 62500000000
   \<and> tokens (bucket_at ''c''
        (buckets (snd (allow 62500000000 62500000000 ''1.1.1.1'' ''c'' blocked_state)))) = 19
   \<and> burstSize (policy_for ''c'' blocked_state) = 20"
proof -
  have h1: "0 \<le> burstSize (policy_for ''c'' blocked_state)"
    by (simp add: blocked_state_def policy_for_def default_RateLimitPolicy_def)
  have h2: "0 \<le> maxMessagesPerSec (policy_for ''c'' blocked_state)"
    by (simp add: blocked_state_def policy_for_def default_RateLimitPolicy_def)
  have h3: "0 \<le> tokens (bucket_at (bucket_key ''1.1.1.1'' ''c'') (buckets blocked_state))"
    by (simp add: blocked_state_def blocked_bucket_def bucket_at_def bucket_key_def)
  have h4: "lastRefill (bucket_at (bucket_key ''1.1.1.1'' ''c'') (buckets blocked_state))
            \<le> 62500000000"
    by (simp add: blocked_state_def blocked_bucket_def bucket_at_def bucket_key_def)
  show ?thesis
    using h1 h2 h3 h4
      tokens_bounded_after_allow [OF h1 h2 h3 h4, of 62500000000 "''x''" small_burst_policy]
    by (simp add: blocked_state_def blocked_bucket_def limiter_eval)
qed

section \<open>Bytes and the length field\<close>

lemma byte_high_bit: "(0x80 \<le> w) = bit (w :: 8 word) 7"
proof -
  have lt: "uint w < 256" using uint_lt2p [of w] by simp
  have ge: "0 \<le> uint w" by simp
  have "bit w 7 = bit (uint w) 7" by (simp add: bit_uint_iff)
  also have "\<dots> = odd (uint w div 128)" by (simp add: bit_iff_odd)
  finally have b: "bit w 7 = odd (uint w div 128)" .
  have l: "(0x80 \<le> w) = (128 \<le> uint w)"
    by (simp add: word_le_def)
  have d: "uint w div 128 = (if 128 \<le> uint w then 1 else 0)"
    using lt ge by auto
  show ?thesis unfolding b l d by simp
qed

lemma byte_bit_ge8: "8 \<le> n \<Longrightarrow> \<not> bit (w :: 8 word) n"
  by (auto dest: bit_imp_le_length)

lemma ff00: "(0xFF00 :: 16 word) = push_bit 8 (mask 8)" by (simp add: mask_eq_exp_minus_1)

lemma len_unsigned: "clientIdLen_of False c0 c1 = be16 c0 c1"
  apply (simp add: clientIdLen_of_def char_to_int_def be16_def)
  apply (rule bit_word_eqI)
  apply (auto simp add: bit_simps)
  done

lemma idx_cases: "n < 16 \<Longrightarrow> n < 7 \<or> n = 7 \<or> (8 \<le> n \<and> n < 15) \<or> n = (15::nat)"
  by arith

lemma len_signed_low: "\<not> high_bit c1 \<Longrightarrow> clientIdLen_of True c0 c1 = be16 c0 c1"
  apply (simp add: clientIdLen_of_def char_to_int_def be16_def high_bit_def byte_high_bit)
  apply (rule bit_word_eqI)
  subgoal for n
    using idx_cases [of n]
    apply (auto simp add: bit_simps min_def byte_bit_ge8)
    done
  done

lemma len_signed_high: "high_bit c1 \<Longrightarrow> clientIdLen_of True c0 c1 = 0xFF00 OR ucast (of_char c1 :: 8 word)"
  apply (simp only: ff00)
  apply (simp add: clientIdLen_of_def char_to_int_def be16_def high_bit_def byte_high_bit)
  apply (rule bit_word_eqI)
  subgoal for n
    using idx_cases [of n]
    apply (auto simp add: bit_simps min_def byte_bit_ge8)
    done
  done

lemma len_bit15: "bit (clientIdLen_of True c0 c1) 15 \<longleftrightarrow> high_bit c0 \<or> high_bit c1"
  by (simp add: clientIdLen_of_def char_to_int_def high_bit_def byte_high_bit bit_simps)

lemma byte_of_scast: "ucast (scast (w :: 8 word) :: 32 word) = w"
proof (rule bit_word_eqI)
  fix n assume "n < LENGTH(8)"
  then show "bit (ucast (scast w :: 32 word) :: 8 word) n = bit w n"
    by (cases "n = 7") (auto simp: bit_simps min_def)
qed

lemma byte_of_ucast: "ucast (ucast (w :: 8 word) :: 32 word) = w"
  by (rule bit_word_eqI) (auto simp: bit_simps)

lemma scast16: "(scast (w :: 8 word) = (0x10 :: 32 word)) = (w = 0x10)"
proof
  assume "scast w = (0x10 :: 32 word)"
  then have "ucast (scast w :: 32 word) = (ucast (0x10 :: 32 word) :: 8 word)" by simp
  then show "w = 0x10" by (simp add: byte_of_scast)
qed simp

lemma ucast16: "(ucast (w :: 8 word) = (0x10 :: 32 word)) = (w = 0x10)"
proof
  assume "ucast w = (0x10 :: 32 word)"
  then have "ucast (ucast w :: 32 word) = (ucast (0x10 :: 32 word) :: 8 word)" by simp
  then show "w = 0x10" by (simp add: byte_of_ucast)
qed simp

lemma unat_of_char: "unat (of_char c :: 8 word) = of_char c"
proof -
  have "(of_char c :: 8 word) = of_nat (of_char c)" by (simp add: of_nat_of_char)
  then have "unat (of_char c :: 8 word) = (of_char c :: nat) mod 256"
    by (simp add: unat_of_nat)
  then show ?thesis by simp
qed

lemma of_char_byte_inj: "((of_char c :: 8 word) = of_char d) = (c = d)"
proof
  assume "(of_char c :: 8 word) = of_char d"
  then have "unat (of_char c :: 8 word) = unat (of_char d :: 8 word)" by simp
  then show "c = d" by (simp add: unat_of_char)
qed simp

lemma first_byte: "(char_to_int sg c = 0x10) = (c = CHR 0x10)"
proof -
  have "(of_char c = (0x10 :: 8 word)) = (of_char c = (of_char (CHR 0x10) :: 8 word))" by simp
  also have "\<dots> = (c = CHR 0x10)" by (rule of_char_byte_inj)
  finally show ?thesis by (simp add: char_to_int_def scast16 ucast16)
qed

lemma bit15_big: "bit (w :: 16 word) 15 \<Longrightarrow> 32768 \<le> uint w"
proof -
  assume a: "bit w 15"
  have ge: "0 \<le> uint w" by simp
  have "bit w 15 = bit (uint w) 15" by (simp add: bit_uint_iff)
  also have "\<dots> = odd (uint w div 32768)" by (simp add: bit_iff_odd)
  finally have b: "odd (uint w div 32768)" using a by simp
  show ?thesis
  proof (rule ccontr)
    assume "\<not> 32768 \<le> uint w"
    then have "uint w div 32768 = 0" using ge by simp
    then show False using b by simp
  qed
qed

lemma ff00_high_bits: "m < 8 \<Longrightarrow> bit (0xFF00 OR ucast (of_char c1 :: 8 word) :: 16 word) (m + 8)"
  by (simp only: ff00) (simp add: bit_simps)

lemma be16_high_bits: "m < 8 \<Longrightarrow> bit (be16 c0 c1) (m + 8) \<Longrightarrow> bit (ucast (of_char c0 :: 8 word) :: 16 word) m"
  by (simp add: be16_def bit_simps byte_bit_ge8)

lemma ucast_byte_bit: "bit (ucast (of_char c0 :: 8 word) :: 16 word) m \<Longrightarrow> bit (of_char c0 :: 8 word) m"
  by (simp add: bit_simps)

lemma all_bits_minus_1: "(\<And>m. m < 8 \<Longrightarrow> bit (w :: 8 word) m) \<Longrightarrow> w = - 1"
  by (intro bit_word_eqI) simp

lemma of_char_ff: "(of_char (CHR 0xFF) :: 8 word) = - 1"
  by simp

lemma be16_ff: "0xFF00 OR ucast (of_char c1 :: 8 word) = be16 (CHR 0xFF) c1"
  by (simp add: be16_def)

lemma len_signed_eq_be16_iff:
  "(clientIdLen_of True c0 c1 = be16 c0 c1) = (\<not> high_bit c1 \<or> c0 = CHR 0xFF)"
proof (cases "high_bit c1")
  case False
  then show ?thesis by (simp add: len_signed_low)
next
  case True
  have "(0xFF00 OR ucast (of_char c1 :: 8 word) = be16 c0 c1) = (c0 = CHR 0xFF)"
  proof
    assume eq: "0xFF00 OR ucast (of_char c1 :: 8 word) = be16 c0 c1"
    have "bit (of_char c0 :: 8 word) m" if "m < 8" for m
    proof -
      have "bit (be16 c0 c1) (m + 8)"
        using ff00_high_bits [OF that, of c1] unfolding eq .
      from ucast_byte_bit [OF be16_high_bits [OF that this]] show ?thesis .
    qed
    then have "(of_char c0 :: 8 word) = - 1" by (rule all_bits_minus_1)
    then have "(of_char c0 :: 8 word) = of_char (CHR 0xFF)" unfolding of_char_ff .
    then show "c0 = CHR 0xFF" unfolding of_char_byte_inj .
  next
    assume "c0 = CHR 0xFF"
    then show "0xFF00 OR ucast (of_char c1 :: 8 word) = be16 c0 c1"
      using be16_ff [of c1] by simp
  qed
  then show ?thesis using True len_signed_high [OF True, of c0] by simp
qed

section \<open>Properties of the CONNECT parser\<close>

lemma recv_length: "recv cap pk = (n, buf) \<Longrightarrow> 0 \<le> n \<Longrightarrow> n = int (length buf) \<and> length buf \<le> cap"
  by (cases pk) auto

lemma extract_short:
  "fst (recv 1024 pk) < 10 \<Longrightarrow> fst (extractClientInfo sg p pk info) = False"
  by (cases "recv 1024 pk") (simp add: extractClientInfo_def Let_def)

lemma extract_long:
  "recv 1024 pk = (n, buf) \<Longrightarrow> 10 \<le> n \<Longrightarrow>
   extractClientInfo sg p pk empty_ClientInfo =
     (True, \<lparr>ip = (case p of Some a \<Rightarrow> a | None \<Rightarrow> ''unknown''),
             clientId = (case parseConnect sg n buf of
                           None \<Rightarrow> ''anonymous_'' @ (case p of Some a \<Rightarrow> a | None \<Rightarrow> ''unknown'')
                         | Some [] \<Rightarrow> ''anonymous_'' @ (case p of Some a \<Rightarrow> a | None \<Rightarrow> ''unknown'')
                         | Some (c # cs) \<Rightarrow> c # cs)\<rparr>)"
  by (simp add: extractClientInfo_def empty_ClientInfo_def Let_def split: option.splits list.splits)

lemma parse_not_connect: "buf ! 0 \<noteq> CHR 0x10 \<Longrightarrow> parseConnect sg n buf = None"
  by (simp add: parseConnect_def first_byte)

lemma parse_connect:
  "buf ! 0 = CHR 0x10 \<Longrightarrow> parseConnect sg n buf =
     (if 12 + uint (clientIdLen_of sg (buf ! 10) (buf ! 11)) < n
      then Some (take (unat (clientIdLen_of sg (buf ! 10) (buf ! 11))) (drop 12 buf)) else None)"
proof -
  have "12 + uint (clientIdLen_of sg (buf ! 10) (buf ! 11)) < n \<longrightarrow> 12 < n"
    using uint_ge_0 [of "clientIdLen_of sg (buf ! 10) (buf ! 11)"] by linarith
  then show "buf ! 0 = CHR 0x10 \<Longrightarrow> ?thesis"
    by (auto simp add: parseConnect_def first_byte Let_def)
qed

lemma parse_too_long: "n \<le> 12 + uint (clientIdLen_of sg (buf ! 10) (buf ! 11)) \<Longrightarrow> parseConnect sg n buf = None"
  by (simp add: parseConnect_def Let_def)

lemma len_is_be16: "(sg \<longrightarrow> \<not> high_bit c1) \<Longrightarrow> clientIdLen_of sg c0 c1 = be16 c0 c1"
  by (cases sg) (simp_all add: len_signed_low len_unsigned)

lemma spec_parse_10:
  assumes "n = int (length buf)" and "10 \<le> n" and "n \<noteq> 12 + uint (be16 (buf ! 10) (buf ! 11))"
  shows "spec_parse 10 buf =
     (if buf ! 0 = CHR 0x10 \<and> 12 + uint (be16 (buf ! 10) (buf ! 11)) < n
      then Some (take (unat (be16 (buf ! 10) (buf ! 11))) (drop 12 buf)) else None)"
proof -
  let ?L = "be16 (buf ! 10) (buf ! 11)"
  have ne: "buf \<noteq> []" using assms(1,2) by auto
  define k where "k = unat ?L"
  have u: "uint ?L = int k" by (simp add: k_def)
  have "n \<noteq> 12 + int k" using assms(3) by (simp add: u)
  then have a: "(12 + int k < n) = (12 \<le> length buf \<and> \<not> length buf < 12 + k)"
    using assms(1) by auto
  show ?thesis
    unfolding u a by (simp add: spec_parse_def ne Let_def k_def)
qed

text \<open>
  C6. The claim has the parser read the Client-ID length at fixed offset 14, as the
  layout in the repository's architecture notes does (bytes 14 and 15, \<open>pos = 14\<close>). The
  code sets \<open>pos = 10\<close>. On a CONNECT of that layout with Client-ID \<open>ab\<close> the rule of the
  claim yields \<open>ab\<close>; the code reads bytes 10 and 11 (770), finds the payload past the
  buffer, extracts nothing, and the client gets the anonymous identity.
\<close>

theorem parser_does_not_read_offset_14:
  "spec_parse 14 mqisdp_connect = Some ''ab''
   \<and> parseConnect True 19 mqisdp_connect = None
   \<and> parseConnect False 19 mqisdp_connect = None
   \<and> extractClientInfo True (Some ''10.0.0.1'') (RecvData mqisdp_connect) empty_ClientInfo
       = (True, \<lparr>ip = ''10.0.0.1'', clientId = ''anonymous_10.0.0.1''\<rparr>)"
  by code_simp

text \<open>
  The mock CONNECT of the integration test is not recognized either: its client is
  rate-limited as an anonymous one.
\<close>

lemma test_mock_connect_is_anonymous:
  "extractClientInfo True (Some ''127.0.0.1'') (RecvData test_mock_connect) empty_ClientInfo
     = (True, \<lparr>ip = ''127.0.0.1'', clientId = ''anonymous_127.0.0.1''\<rparr>)"
  by code_simp

text \<open>
  What the parser does as written, for a peeked buffer of at least 10 bytes (and, where
  \<open>char\<close> is signed, byte 11 below \<open>0x80\<close>): a first byte other than \<open>0x10\<close> is not
  recognized; with first byte \<open>0x10\<close> the length is the big-endian value of bytes 10 and
  11, and the Client-ID is that many bytes from offset 12 when they end strictly inside
  the buffer; otherwise nothing is recognized.
\<close>

lemma parser_reads_offset_10:
  assumes "recv 1024 pk = (n, buf)" and "10 \<le> n" and "sg \<longrightarrow> \<not> high_bit (buf ! 11)"
  shows "(buf ! 0 \<noteq> CHR 0x10 \<longrightarrow> parseConnect sg n buf = None)
    \<and> (buf ! 0 = CHR 0x10 \<and> 12 + uint (be16 (buf ! 10) (buf ! 11)) < n \<longrightarrow>
         parseConnect sg n buf = Some (take (unat (be16 (buf ! 10) (buf ! 11))) (drop 12 buf)))
    \<and> (n \<le> 12 + uint (be16 (buf ! 10) (buf ! 11)) \<longrightarrow> parseConnect sg n buf = None)
    \<and> (n \<noteq> 12 + uint (be16 (buf ! 10) (buf ! 11)) \<longrightarrow> parseConnect sg n buf = spec_parse 10 buf)
    \<and> extractClientInfo sg p pk empty_ClientInfo =
        (True, \<lparr>ip = (case p of Some a \<Rightarrow> a | None \<Rightarrow> ''unknown''),
                clientId = (case parseConnect sg n buf of
                   None \<Rightarrow> ''anonymous_'' @ (case p of Some a \<Rightarrow> a | None \<Rightarrow> ''unknown'')
                 | Some [] \<Rightarrow> ''anonymous_'' @ (case p of Some a \<Rightarrow> a | None \<Rightarrow> ''unknown'')
                 | Some (c # cs) \<Rightarrow> c # cs)\<rparr>)"
proof -
  let ?L = "be16 (buf ! 10) (buf ! 11)"
  have len: "clientIdLen_of sg (buf ! 10) (buf ! 11) = ?L"
    using assms(3) by (rule len_is_be16)
  have n: "n = int (length buf)"
    using recv_length [OF assms(1)] assms(2) by simp
  have a: "buf ! 0 \<noteq> CHR 0x10 \<longrightarrow> parseConnect sg n buf = None"
    by (simp add: parse_not_connect)
  have b: "buf ! 0 = CHR 0x10 \<and> 12 + uint ?L < n \<longrightarrow>
         parseConnect sg n buf = Some (take (unat ?L) (drop 12 buf))"
    by (simp add: parse_connect len)
  have c: "n \<le> 12 + uint ?L \<longrightarrow> parseConnect sg n buf = None"
    using parse_too_long [of n sg buf] by (simp add: len)
  have d: "n \<noteq> 12 + uint ?L \<longrightarrow> parseConnect sg n buf = spec_parse 10 buf"
  proof
    assume ne: "n \<noteq> 12 + uint ?L"
    show "parseConnect sg n buf = spec_parse 10 buf"
    proof (cases "buf ! 0 = CHR 0x10")
      case True
      then show ?thesis
        unfolding spec_parse_10 [OF n assms(2) ne] by (simp add: parse_connect len)
    next
      case False
      then show ?thesis
        unfolding spec_parse_10 [OF n assms(2) ne] by (simp add: parse_not_connect)
    qed
  qed
  from a b c d extract_long [OF assms(1,2), of sg p] show ?thesis by blast
qed

text \<open>
  A CONNECT of MQTT 3.1.1 with keep-alive 3 and Client-ID \<open>dev\<close>: the parser takes the
  keep-alive for the length and returns the bytes \<open>00 03 'd'\<close>.
\<close>

lemma mqtt311_connect_misread:
  "recv 1024 (RecvData mqtt311_connect) = (17, mqtt311_connect)
   \<and> \<not> high_bit (mqtt311_connect ! 11)
   \<and> mqtt311_connect ! 0 = CHR 0x10
   \<and> 12 + uint (be16 (mqtt311_connect ! 10) (mqtt311_connect ! 11)) < 17
   \<and> parseConnect True 17 mqtt311_connect = Some [CHR 0x00, CHR 0x03, CHR ''d'']
   \<and> spec_parse 10 mqtt311_connect = Some [CHR 0x00, CHR 0x03, CHR ''d'']"
proof -
  have h1: "recv 1024 (RecvData mqtt311_connect) = (17, mqtt311_connect)" by code_simp
  have h2: "(10 :: int) \<le> 17" by simp
  have h3: "True \<longrightarrow> \<not> high_bit (mqtt311_connect ! 11)" by code_simp
  have e1: "mqtt311_connect ! 0 = CHR 0x10" by code_simp
  have e2: "12 + uint (be16 (mqtt311_connect ! 10) (mqtt311_connect ! 11)) < 17" by code_simp
  have e3: "take (unat (be16 (mqtt311_connect ! 10) (mqtt311_connect ! 11))) (drop 12 mqtt311_connect)
            = [CHR 0x00, CHR 0x03, CHR ''d'']" by code_simp
  have nb: "\<not> high_bit (mqtt311_connect ! 11)" using h3 by simp
  have ne: "17 \<noteq> 12 + uint (be16 (mqtt311_connect ! 10) (mqtt311_connect ! 11))"
    using e2 by simp
  note t = parser_reads_offset_10 [OF h1 h2 h3, of "Some ''10.0.0.1''"]
  have "parseConnect True 17 mqtt311_connect
        = Some (take (unat (be16 (mqtt311_connect ! 10) (mqtt311_connect ! 11)))
                 (drop 12 mqtt311_connect))"
    using t e1 e2 by blast
  then have p: "parseConnect True 17 mqtt311_connect = Some [CHR 0x00, CHR 0x03, CHR ''d'']"
    unfolding e3 .
  have "parseConnect True 17 mqtt311_connect = spec_parse 10 mqtt311_connect"
    using t ne by blast
  then have s: "spec_parse 10 mqtt311_connect = Some [CHR 0x00, CHR 0x03, CHR ''d'']"
    using p by simp
  show ?thesis by (intro conjI h1 nb e1 e2 p s)
qed

text \<open>
  C9, as stated, fails for a high bit in the first byte alone: with a signed \<open>char\<close> the
  bytes \<open>0x80\<close>, \<open>0x01\<close> give the length \<open>0x8001\<close>, their big-endian value, since the
  conversion to \<open>uint16_t\<close> drops the sign extension of the shifted byte.
\<close>

theorem signed_first_byte_still_big_endian:
  "high_bit (CHR 0x80)
   \<and> clientIdLen_of True (CHR 0x80) (CHR 0x01) = be16 (CHR 0x80) (CHR 0x01)
   \<and> be16 (CHR 0x80) (CHR 0x01) = 0x8001"
  by (simp add: high_bit_def clientIdLen_of_def char_to_int_def be16_def)

text \<open>
  C9, amended. With a signed \<open>char\<close>, the computed length is the big-endian value of the
  two bytes whenever the second byte is below \<open>0x80\<close>, and \<open>0xFF00\<close> or-ed with the
  second byte when that byte has its high bit set; so it differs from the big-endian value
  exactly when the second byte has its high bit set and the first is not \<open>0xFF\<close>
  (with an unsigned \<open>char\<close> it is always the big-endian value). When either byte has
  its high bit set the signed computation gives at least 32768, the bounds check against
  the at most 1024 peeked bytes fails, no Client-ID is extracted, and the client gets the
  anonymous identity, also for a well-formed buffer.
\<close>

theorem signed_char_length:
  assumes "recv 1024 pk = (n, buf)" and "10 \<le> n"
    and "high_bit (buf ! 10) \<or> high_bit (buf ! 11)"
  shows "clientIdLen_of True (buf ! 10) (buf ! 11)
       = (if high_bit (buf ! 11) then 0xFF00 OR ucast (of_char (buf ! 11) :: 8 word)
          else be16 (buf ! 10) (buf ! 11))
    \<and> ((clientIdLen_of True (buf ! 10) (buf ! 11) = be16 (buf ! 10) (buf ! 11))
        = (\<not> high_bit (buf ! 11) \<or> buf ! 10 = CHR 0xFF))
    \<and> clientIdLen_of False (buf ! 10) (buf ! 11) = be16 (buf ! 10) (buf ! 11)
    \<and> 32768 \<le> uint (clientIdLen_of True (buf ! 10) (buf ! 11))
    \<and> parseConnect True n buf = None
    \<and> extractClientInfo True p pk empty_ClientInfo =
        (True, \<lparr>ip = (case p of Some a \<Rightarrow> a | None \<Rightarrow> ''unknown''),
                clientId = ''anonymous_'' @ (case p of Some a \<Rightarrow> a | None \<Rightarrow> ''unknown'')\<rparr>)"
proof -
  let ?L = "clientIdLen_of True (buf ! 10) (buf ! 11)"
  have f: "?L = (if high_bit (buf ! 11) then 0xFF00 OR ucast (of_char (buf ! 11) :: 8 word)
          else be16 (buf ! 10) (buf ! 11))"
    by (simp add: len_signed_high len_signed_low)
  have big: "32768 \<le> uint ?L"
    using assms(3) by (intro bit15_big) (simp add: len_bit15)
  have "n \<le> 1024" using recv_length [OF assms(1)] assms(2) by simp
  then have "n \<le> 12 + uint ?L" using big by simp
  then have none: "parseConnect True n buf = None" by (rule parse_too_long)
  show ?thesis
    using f big none len_signed_eq_be16_iff [of "buf ! 10" "buf ! 11"]
      len_unsigned [of "buf ! 10" "buf ! 11"] extract_long [OF assms(1,2), of True p]
    by simp
qed

theorem signed_char_length_witness:
  "recv 1024 (RecvData long_id_connect) = (141, long_id_connect)
   \<and> high_bit (long_id_connect ! 11)
   \<and> be16 (long_id_connect ! 10) (long_id_connect ! 11) = 128
   \<and> clientIdLen_of True (long_id_connect ! 10) (long_id_connect ! 11) = 0xFF80
   \<and> parseConnect True 141 long_id_connect = None
   \<and> extractClientInfo True (Some ''10.0.0.1'') (RecvData long_id_connect) empty_ClientInfo
       = (True, \<lparr>ip = ''10.0.0.1'', clientId = ''anonymous_10.0.0.1''\<rparr>)"
proof -
  have h1: "recv 1024 (RecvData long_id_connect) = (141, long_id_connect)" by code_simp
  have h2: "(10 :: int) \<le> 141" by simp
  have b: "long_id_connect ! 11 = CHR 0x80" by code_simp
  have a: "long_id_connect ! 10 = CHR 0x00" by code_simp
  have hb: "high_bit (long_id_connect ! 11)" unfolding b by (simp add: high_bit_def)
  then have h3: "high_bit (long_id_connect ! 10) \<or> high_bit (long_id_connect ! 11)" by simp
  have be: "be16 (long_id_connect ! 10) (long_id_connect ! 11) = 128"
    unfolding a b by (simp add: be16_def)
  note t = signed_char_length [OF h1 h2 h3, of "Some ''10.0.0.1''"]
  have l: "clientIdLen_of True (long_id_connect ! 10) (long_id_connect ! 11) = 0xFF80"
    using t hb by (simp add: b)
  have p: "parseConnect True 141 long_id_connect = None"
    using t by simp
  have e: "extractClientInfo True (Some ''10.0.0.1'') (RecvData long_id_connect) empty_ClientInfo
       = (True, \<lparr>ip = ''10.0.0.1'', clientId = ''anonymous_10.0.0.1''\<rparr>)"
    using t by simp
  show ?thesis by (intro conjI h1 hb be l p e)
qed

section \<open>Properties of the worker\<close>

lemma counter_value_increment:
  "counter_value n (incrementCounter m cs) = (if n = m then counter_value n cs + 1 else counter_value n cs)"
  by (simp add: incrementCounter_def counter_value_def update_conv' Let_def)

lemma client_to_broker_frame:
  assumes "k \<noteq> bucket_key (ip info) (clientId info)"
    and "client_to_broker ch bs info st = r" and "r = Break st' \<or> r = Continue st' \<or> r = Next st'"
  shows "map_of (buckets (rateLimiter st')) k = map_of (buckets (rateLimiter st)) k
         \<and> counter_value ''client_disconnects'' (metrics st') = counter_value ''client_disconnects'' (metrics st)"
  using assms allow_frame [OF assms(1), of "clock_check ch" "clock_refill ch" "rateLimiter st"]
  by (auto simp add: client_to_broker_def Let_def counter_value_increment split: prod.splits if_splits)

lemma broker_to_client_frame:
  assumes "broker_to_client ch cs st = r" and "r = Break st' \<or> r = Continue st' \<or> r = Next st'"
  shows "rateLimiter st' = rateLimiter st \<and> metrics st' = metrics st"
  using assms by (auto simp add: broker_to_client_def Let_def split: prod.splits if_splits)

lemma forwardTraffic_inv:
  assumes k: "k \<noteq> bucket_key (ip info) (clientId info)"
  shows "map_of (buckets (rateLimiter st)) k = M
           \<and> counter_value ''client_disconnects'' (metrics st) = C \<Longrightarrow>
         map_of (buckets (rateLimiter (forwardTraffic evs cs bs info st))) k = M
           \<and> counter_value ''client_disconnects'' (metrics (forwardTraffic evs cs bs info st)) = C"
proof (induction evs arbitrary: st)
  case Nil
  then show ?case by simp
next
  case (Cons ev evs)
  note inv = Cons.prems
  show ?case
  proof (cases ev)
    case Idle
    then show ?thesis using Cons.IH [OF inv] by simp
  next
    case (Ready c b)
    define r1 where "r1 = (case c of None \<Rightarrow> Next st | Some ch \<Rightarrow> client_to_broker ch bs info st)"
    have c_step: "map_of (buckets (rateLimiter st1)) k = M
         \<and> counter_value ''client_disconnects'' (metrics st1) = C"
      if "r1 = Break st1 \<or> r1 = Continue st1 \<or> r1 = Next st1" for st1
    proof (cases c)
      case None
      then show ?thesis using that inv by (simp add: r1_def)
    next
      case (Some ch)
      then have "client_to_broker ch bs info st = r1" by (simp add: r1_def)
      from client_to_broker_frame [OF k this that] inv show ?thesis by simp
    qed
    have b_step: "rateLimiter st2 = rateLimiter st1 \<and> metrics st2 = metrics st1"
      if "(case b of None \<Rightarrow> Next st1 | Some ch \<Rightarrow> broker_to_client ch cs st1) = r2"
        and "r2 = Break st2 \<or> r2 = Continue st2 \<or> r2 = Next st2" for r2 st1 st2
    proof (cases b)
      case None
      then show ?thesis using that by auto
    next
      case (Some ch)
      then have "broker_to_client ch cs st1 = r2" using that(1) by simp
      from broker_to_client_frame [OF this that(2)] show ?thesis .
    qed
    have unfold: "forwardTraffic (ev # evs) cs bs info st =
        (case r1 of
           Break st \<Rightarrow> st\<lparr>io := io st @ [SocketClosed bs]\<rparr>
         | Continue st \<Rightarrow> forwardTraffic evs cs bs info st
         | Next st \<Rightarrow>
             (case (case b of None \<Rightarrow> Next st | Some ch \<Rightarrow> broker_to_client ch cs st) of
                Break st \<Rightarrow> st\<lparr>io := io st @ [SocketClosed bs]\<rparr>
              | Continue st \<Rightarrow> forwardTraffic evs cs bs info st
              | Next st \<Rightarrow> forwardTraffic evs cs bs info st))"
      by (simp add: Ready r1_def)
    show ?thesis
    proof (cases r1)
      case (Break st1)
      then show ?thesis using c_step [of st1] by (simp add: unfold)
    next
      case (Continue st1)
      then show ?thesis using Cons.IH [OF c_step [of st1]] by (simp add: unfold)
    next
      case (Next st1)
      note n1 = this
      have q1: "map_of (buckets (rateLimiter st1)) k = M
         \<and> counter_value ''client_disconnects'' (metrics st1) = C"
        using c_step [of st1] n1 by simp
      define r2 where "r2 = (case b of None \<Rightarrow> Next st1 | Some ch \<Rightarrow> broker_to_client ch cs st1)"
      have u2: "forwardTraffic (ev # evs) cs bs info st =
          (case r2 of
             Break st \<Rightarrow> st\<lparr>io := io st @ [SocketClosed bs]\<rparr>
           | Continue st \<Rightarrow> forwardTraffic evs cs bs info st
           | Next st \<Rightarrow> forwardTraffic evs cs bs info st)"
        by (simp add: unfold n1 r2_def)
      have q2: "map_of (buckets (rateLimiter st2)) k = M
         \<and> counter_value ''client_disconnects'' (metrics st2) = C"
        if "r2 = Break st2 \<or> r2 = Continue st2 \<or> r2 = Next st2" for st2
        using b_step [OF r2_def [symmetric] that] q1 by simp
      show ?thesis
      proof (cases r2)
        case (Break st2)
        then show ?thesis using q2 [of st2] by (simp add: u2)
      next
        case (Continue st2)
        then show ?thesis using Cons.IH [OF q2 [of st2]] by (simp add: u2)
      next
        case (Next st2)
        then show ?thesis using Cons.IH [OF q2 [of st2]] by (simp add: u2)
      qed
    qed
  qed
qed

lemma connectToBroker_frame:
  "rateLimiter (snd (connectToBroker e st)) = rateLimiter st
   \<and> metrics (snd (connectToBroker e st)) = metrics st"
  by (simp add: connectToBroker_def Let_def)

lemma handleClient_inv:
  assumes e: "extractClientInfo sg (peer env) (peeked env) empty_ClientInfo = (ok, info)"
    and k: "k \<noteq> bucket_key (ip info) (clientId info)"
  shows "map_of (buckets (rateLimiter (handleClient sg env cs st))) k
         = map_of (buckets (rateLimiter st)) k"
proof -
  obtain bsock st1 where c: "connectToBroker (broker env) st = (bsock, st1)"
    by (cases "connectToBroker (broker env) st")
  have st1: "rateLimiter st1 = rateLimiter st"
    using connectToBroker_frame [of "broker env" st] by (simp add: c)
  have f: "map_of (buckets (rateLimiter (forwardTraffic (pump env) cs bsock info st1))) k
           = map_of (buckets (rateLimiter st)) k"
    using forwardTraffic_inv [OF k, of st1 "map_of (buckets (rateLimiter st)) k"
        "counter_value ''client_disconnects'' (metrics st1)" "pump env" cs bsock]
    by (simp add: st1)
  show ?thesis
    using f st1 by (simp add: handleClient_def e c Let_def)
qed

lemma anonymous_differs: "a \<noteq> ''anonymous_'' @ a"
proof
  assume "a = ''anonymous_'' @ a"
  then have "length a = length (''anonymous_'' @ a)" by simp
  then show False by simp
qed

text \<open>
  C3. When the peek delivers fewer than 10 bytes (or fails), the worker only closes the
  client socket: the rate limiter and every counter of the metrics sink, the
  \<open>client_disconnects\<close> counter among them, are as before, and no broker socket is opened.
\<close>

theorem short_peek_abandons:
  assumes "fst (recv 1024 (peeked env)) < 10"
  shows "handleClient sg env clientSocket st = st\<lparr>io := io st @ [SocketClosed clientSocket]\<rparr>"
proof -
  obtain ok ci where e: "extractClientInfo sg (peer env) (peeked env) empty_ClientInfo = (ok, ci)"
    by (cases "extractClientInfo sg (peer env) (peeked env) empty_ClientInfo")
  have "\<not> ok" using extract_short [OF assms, of sg "peer env" empty_ClientInfo] e by simp
  then show ?thesis by (simp add: handleClient_def e)
qed

theorem short_peek_abandons_witness:
  "fst (recv 1024 (peeked short_env)) = 3
   \<and> handleClient True short_env 4 example_box = example_box\<lparr>io := [SocketClosed 4]\<rparr>"
proof -
  have h: "fst (recv 1024 (peeked short_env)) < 10" by (simp add: short_env_def)
  show ?thesis using short_peek_abandons [OF h, of True 4 example_box]
    by (simp add: short_env_def example_box_def)
qed

text \<open>
  A worker that reaches the pump loop increments \<open>client_disconnects\<close> exactly once.
\<close>

lemma handleClient_disconnects_once:
  assumes "extractClientInfo sg (peer env) (peeked env) empty_ClientInfo = (True, info)"
    and "connectToBroker (broker env) st = (bsock, st1)" and "0 \<le> bsock"
  shows "counter_value ''client_disconnects'' (metrics (handleClient sg env cs st))
         = counter_value ''client_disconnects'' (metrics st) + 1"
proof -
  let ?k = "CHR ''x'' # bucket_key (ip info) (clientId info)"
  have k: "?k \<noteq> bucket_key (ip info) (clientId info)" by simp
  have m1: "metrics st1 = metrics st"
    using connectToBroker_frame [of "broker env" st] by (simp add: assms(2))
  have "counter_value ''client_disconnects'' (metrics (forwardTraffic (pump env) cs bsock info st1))
        = counter_value ''client_disconnects'' (metrics st)"
    using forwardTraffic_inv [OF k, of st1 "map_of (buckets (rateLimiter st1)) ?k"
        "counter_value ''client_disconnects'' (metrics st)" "pump env" cs bsock]
    by (simp add: m1)
  then show ?thesis
    using assms(3) by (simp add: handleClient_def assms(1,2) Let_def counter_value_increment)
qed

lemma client_to_broker_limiter:
  "0 < fst (recv 4096 (client_recv ch)) \<Longrightarrow>
   rateLimiter (flow_state (client_to_broker ch bs info st))
   = snd (allow (clock_check ch) (clock_refill ch) (ip info) (clientId info) (rateLimiter st))"
  by (cases "recv 4096 (client_recv ch)";
      cases "allow (clock_check ch) (clock_refill ch) (ip info) (clientId info) (rateLimiter st)")
     (simp add: client_to_broker_def Let_def)

lemma checkAndUpdateBucket_key_present:
  "map_of (buckets (snd (checkAndUpdateBucket now nr key P s))) key \<noteq> None"
  by (simp add: checkAndUpdateBucket_def Let_def update_conv')

text \<open>
  C1, as stated, fails: for a client whose first 10 bytes are not a CONNECT, one chunk
  later the only bucket is filed under \<open>anonymous_10.0.0.1\<close>, and none under the IP.
\<close>

theorem unparsed_client_not_keyed_by_ip:
  "map fst (buckets (rateLimiter (handleClient True anonymous_env 4 example_box)))
     = [''anonymous_10.0.0.1'']
   \<and> map_of (buckets (rateLimiter (handleClient True anonymous_env 4 example_box))) ''10.0.0.1''
     = None"
  by code_simp

text \<open>
  C1, amended. For a connection whose Client-ID could not be parsed (nothing recognized,
  or an empty Client-ID), the resolved client id is \<open>anonymous_\<close> followed by the peer's
  IP text, and that string, being non-empty, is the key of the rate limiter: every client
  chunk the worker reads makes the call \<open>allow\<close> with that client id, whose effect on
  the bucket table is that of \<open>checkAndUpdateBucket\<close> under the key \<open>anonymous_<ip>\<close>,
  where a bucket then exists; and whatever the worker does, every bucket under another
  key, the one under the bare IP included, is left as it was.
\<close>

theorem unparsed_client_key:
  assumes "recv 1024 (peeked env) = (n, buf)" and "10 \<le> n"
    and "parseConnect sg n buf = None \<or> parseConnect sg n buf = Some []"
    and "extractClientInfo sg (peer env) (peeked env) empty_ClientInfo = (ok, info)"
  shows "ok \<and> clientId info = ''anonymous_'' @ ip info
    \<and> bucket_key (ip info) (clientId info) = ''anonymous_'' @ ip info
    \<and> (\<forall>ch bs st'. 0 < fst (recv 4096 (client_recv ch)) \<longrightarrow>
          rateLimiter (flow_state (client_to_broker ch bs info st'))
          = snd (allow (clock_check ch) (clock_refill ch) (ip info) (''anonymous_'' @ ip info)
                   (rateLimiter st')))
    \<and> (\<forall>now nr s.
          buckets (snd (allow now nr (ip info) (''anonymous_'' @ ip info) s))
          = buckets (snd (checkAndUpdateBucket now nr (''anonymous_'' @ ip info)
                            (policy_for (''anonymous_'' @ ip info) s) s))
          \<and> map_of (buckets (snd (allow now nr (ip info) (''anonymous_'' @ ip info) s)))
                (''anonymous_'' @ ip info) \<noteq> None)
    \<and> (\<forall>k. k \<noteq> ''anonymous_'' @ ip info \<longrightarrow>
          map_of (buckets (rateLimiter (handleClient sg env cs st))) k
          = map_of (buckets (rateLimiter st)) k)
    \<and> map_of (buckets (rateLimiter (handleClient sg env cs st))) (ip info)
        = map_of (buckets (rateLimiter st)) (ip info)"
proof -
  let ?A = "''anonymous_'' @ ip info"
  have i: "ok \<and> clientId info = ?A"
    using assms(3,4) extract_long [OF assms(1,2), of sg "peer env"] by auto
  then have key: "bucket_key (ip info) (clientId info) = ?A"
    by (simp add: bucket_key_def)
  have key': "bucket_key (ip info) ?A = ?A"
    using key i by simp
  have ch: "rateLimiter (flow_state (client_to_broker ch bs info st'))
          = snd (allow (clock_check ch) (clock_refill ch) (ip info) ?A (rateLimiter st'))"
    if "0 < fst (recv 4096 (client_recv ch))" for ch bs st'
    using client_to_broker_limiter [OF that, of bs info st'] i by simp
  have al: "buckets (snd (allow now nr (ip info) ?A s))
          = buckets (snd (checkAndUpdateBucket now nr ?A (policy_for ?A s) s))
          \<and> map_of (buckets (snd (allow now nr (ip info) ?A s))) ?A \<noteq> None" for now nr s
    using allow_buckets [of now nr "ip info" ?A s]
      checkAndUpdateBucket_key_present [of now nr ?A "policy_for ?A s" s]
    by (simp only: key') simp
  have fr: "map_of (buckets (rateLimiter (handleClient sg env cs st))) k
          = map_of (buckets (rateLimiter st)) k" if "k \<noteq> ?A" for k
    using handleClient_inv [OF assms(4), of k cs st] that key by simp
  have ipb: "map_of (buckets (rateLimiter (handleClient sg env cs st))) (ip info)
        = map_of (buckets (rateLimiter st)) (ip info)"
    using fr [of "ip info"] anonymous_differs [of "ip info"] by simp
  from i key ch al fr ipb show ?thesis by blast
qed

theorem unparsed_client_key_witness:
  "recv 1024 (peeked anonymous_env) = (10, replicate 10 (CHR 0x00))
   \<and> parseConnect True 10 (replicate 10 (CHR 0x00)) = None
   \<and> extractClientInfo True (peer anonymous_env) (peeked anonymous_env) empty_ClientInfo
       = (True, \<lparr>ip = ''10.0.0.1'', clientId = ''anonymous_10.0.0.1''\<rparr>)
   \<and> bucket_key ''10.0.0.1'' ''anonymous_10.0.0.1'' = ''anonymous_10.0.0.1''
   \<and> 0 < fst (recv 4096 (client_recv example_chunk))
   \<and> rateLimiter (flow_state (client_to_broker example_chunk 5
          \<lparr>ip = ''10.0.0.1'', clientId = ''anonymous_10.0.0.1''\<rparr> example_box))
       = snd (allow 1000 1000 ''10.0.0.1'' ''anonymous_10.0.0.1'' (rateLimiter example_box))
   \<and> map_of (buckets (rateLimiter (handleClient True anonymous_env 4 example_box)))
         ''anonymous_10.0.0.1''
       = Some \<lparr>tokens = 19, lastRefill = 1000, blockedUntil = 0, isBlocked = False\<rparr>
   \<and> map_of (buckets (rateLimiter (handleClient True anonymous_env 4 example_box))) ''10.0.0.1''
       = None"
proof -
  have h1: "recv 1024 (peeked anonymous_env) = (10, replicate 10 (CHR 0x00))"
    by (simp add: anonymous_env_def)
  have h2: "(10 :: int) \<le> 10" by simp
  have p: "parseConnect True 10 (replicate 10 (CHR 0x00)) = None"
    by (simp add: parseConnect_def first_byte)
  then have h3: "parseConnect True 10 (replicate 10 (CHR 0x00)) = None
      \<or> parseConnect True 10 (replicate 10 (CHR 0x00)) = Some []"
    by simp
  have h4: "extractClientInfo True (peer anonymous_env) (peeked anonymous_env) empty_ClientInfo
       = (True, \<lparr>ip = ''10.0.0.1'', clientId = ''anonymous_10.0.0.1''\<rparr>)"
    using extract_long [OF h1 h2, of True "peer anonymous_env"] p
    by (simp add: anonymous_env_def)
  note t = unparsed_client_key [OF h1 h2 h3 h4, of 4 example_box]
  have k: "bucket_key ''10.0.0.1'' ''anonymous_10.0.0.1'' = ''anonymous_10.0.0.1''"
    using t by simp
  have r: "0 < fst (recv 4096 (client_recv example_chunk))"
    by (simp add: example_chunk_def)
  have c: "rateLimiter (flow_state (client_to_broker example_chunk 5
          \<lparr>ip = ''10.0.0.1'', clientId = ''anonymous_10.0.0.1''\<rparr> example_box))
       = snd (allow 1000 1000 ''10.0.0.1'' ''anonymous_10.0.0.1'' (rateLimiter example_box))"
    using t r by (simp add: example_chunk_def)
  have b: "map_of (buckets (rateLimiter (handleClient True anonymous_env 4 example_box)))
         ''anonymous_10.0.0.1''
       = Some \<lparr>tokens = 19, lastRefill = 1000, blockedUntil = 0, isBlocked = False\<rparr>"
    by code_simp
  have "map_of (buckets (rateLimiter (handleClient True anonymous_env 4 example_box))) ''10.0.0.1''
       = map_of (buckets (rateLimiter example_box)) ''10.0.0.1''"
    using t by simp
  then have f: "map_of (buckets (rateLimiter (handleClient True anonymous_env 4 example_box)))
       ''10.0.0.1'' = None"
    by (simp add: example_box_def new_RateLimiter_def)
  show ?thesis by (intro conjI h1 p h4 k r c b f)
qed

end
